theory Spec2Isabelle
  imports Complex_Main
begin

section \<open>Values read back from storage\<close>

text \<open>
  \<open>JSON.parse\<close> yields null, booleans, numbers, strings, arrays and objects. An object is
  the list of its own properties (keys distinct, as \<open>JSON.parse\<close> produces them). Numbers
  are only tested for truthiness by the code (zero is falsy), so a rational stands for the
  parsed double. The JavaScript value \<open>undefined\<close> (a missing property) is \<open>None\<close> of
  \<open>json option\<close>.
\<close>

datatype json =
    JNull
  | JBool bool
  | JNum rat
  | JStr string
  | JArr "json list"
  | JObj "(string \<times> json) list"

datatype jstype = TUndefined | TObject | TBoolean | TNumber | TString

datatype error = TypeError

fun typeof :: "json option \<Rightarrow> jstype" where
  "typeof None = TUndefined"
| "typeof (Some JNull) = TObject"
| "typeof (Some (JBool b)) = TBoolean"
| "typeof (Some (JNum n)) = TNumber"
| "typeof (Some (JStr s)) = TString"
| "typeof (Some (JArr xs)) = TObject"
| "typeof (Some (JObj kvs)) = TObject"

fun truthy :: "json option \<Rightarrow> bool" where
  "truthy None = False"
| "truthy (Some JNull) = False"
| "truthy (Some (JBool b)) = b"
| "truthy (Some (JNum n)) = (n \<noteq> 0)"
| "truthy (Some (JStr s)) = (s \<noteq> [])"
| "truthy (Some (JArr xs)) = True"
| "truthy (Some (JObj kvs)) = True"

fun isArray :: "json option \<Rightarrow> bool" where
  "isArray (Some (JArr xs)) = True"
| "isArray v = False"

text \<open>
  Property read \<open>v.k\<close> for the names the code uses (\<open>version\<close>, \<open>columns\<close>, \<open>rows\<close>,
  \<open>id\<close>, \<open>name\<close>, \<open>cells\<close>): an own property of an object, \<open>undefined\<close> on arrays and
  primitives. The code reads a property only behind a truthiness guard, so \<open>null.k\<close>
  (which would throw) is never evaluated.
\<close>

fun get_prop :: "json \<Rightarrow> string \<Rightarrow> json option" where
  "get_prop (JObj kvs) k = map_of kvs k"
| "get_prop v k = None"

function string_of_nat :: "nat \<Rightarrow> string" where
  "string_of_nat n =
     (if n < 10 then [char_of (48 + n)]
      else string_of_nat (n div 10) @ [char_of (48 + n mod 10)])"
  by pat_completeness auto
termination
  by (relation "measure (\<lambda>n. n)") auto

text \<open>
  \<open>Object.entries(v)\<close>: throws a TypeError on \<open>null\<close>; the own enumerable properties of an
  object; the index/value pairs of an array or of a string; nothing for a number or a
  boolean. Every key is a string.
\<close>

fun Object_entries :: "json \<Rightarrow> error + (string \<times> json) list" where
  "Object_entries JNull = Inl TypeError"
| "Object_entries (JObj kvs) = Inr kvs"
| "Object_entries (JArr xs) = Inr (zip (map string_of_nat [0..<length xs]) xs)"
| "Object_entries (JStr s) =
     Inr (zip (map string_of_nat [0..<length s]) (map (\<lambda>c. JStr [c]) s))"
| "Object_entries (JBool b) = Inr []"
| "Object_entries (JNum n) = Inr []"

text \<open>
  \<open>Array.prototype.every\<close> with a callback that may throw: the elements are visited in
  order, the first falsy result ends the loop with \<open>false\<close>, a throw ends it with the error.
\<close>

fun every_e :: "('a \<Rightarrow> error + bool) \<Rightarrow> 'a list \<Rightarrow> error + bool" where
  "every_e p [] = Inr True"
| "every_e p (x # xs) =
     (case p x of
        Inl e \<Rightarrow> Inl e
      | Inr b \<Rightarrow> if b then every_e p xs else Inr False)"

section \<open>The persisted state: initial value, migration, validation\<close>

definition CURRENT_VERSION :: rat where
  "CURRENT_VERSION = 1"

definition initialState :: json where
  "initialState =
     JObj [(''version'', JNum CURRENT_VERSION), (''columns'', JArr []), (''rows'', JArr [])]"

fun array_or_empty :: "json option \<Rightarrow> json" where
  \<comment> \<open>\<open>Array.isArray(v) ? v : []\<close>\<close>
  "array_or_empty (Some (JArr xs)) = JArr xs"
| "array_or_empty v = JArr []"

definition migrateState :: "json \<Rightarrow> json" where
  "migrateState state =
     (if \<not> truthy (Some state) \<or> typeof (Some state) \<noteq> TObject then initialState
      else if \<not> truthy (get_prop state ''version'') then
        JObj [(''version'', JNum CURRENT_VERSION),
              (''columns'', array_or_empty (get_prop state ''columns'')),
              (''rows'', array_or_empty (get_prop state ''rows''))]
      else state)"

definition valid_column :: "json \<Rightarrow> bool" where
  "valid_column col =
     (truthy (Some col) \<and> typeof (get_prop col ''id'') = TString
        \<and> typeof (get_prop col ''name'') = TString)"

definition valid_entry :: "string \<times> json \<Rightarrow> bool" where
  \<comment> \<open>\<open>typeof key === "string"\<close> holds of every key; the value is tested.\<close>
  "valid_entry e = (case e of (key, val) \<Rightarrow> True \<and> typeof (Some val) = TString)"

definition valid_row :: "json \<Rightarrow> error + bool" where
  "valid_row row =
     (if \<not> truthy (Some row) then Inr False
      else if typeof (get_prop row ''id'') \<noteq> TString then Inr False
      else if typeof (get_prop row ''cells'') \<noteq> TObject then Inr False
      else (case get_prop row ''cells'' of
              None \<Rightarrow> Inr False
            | Some c \<Rightarrow> (case Object_entries c of
                          Inl e \<Rightarrow> Inl e
                        | Inr es \<Rightarrow> Inr (list_all valid_entry es))))"

fun elements :: "json option \<Rightarrow> json list" where
  \<comment> \<open>the elements of a value that \<open>Array.isArray\<close> has accepted\<close>
  "elements (Some (JArr xs)) = xs"
| "elements v = []"

definition validateState :: "json \<Rightarrow> error + bool" where
  "validateState state =
     (if \<not> truthy (Some state) \<or> typeof (Some state) \<noteq> TObject then Inr False
      else if \<not> isArray (get_prop state ''columns'') \<or> \<not> isArray (get_prop state ''rows'')
      then Inr False
      else (let validColumns = list_all valid_column (elements (get_prop state ''columns''))
            in if \<not> validColumns then Inr False
               else (case every_e valid_row (elements (get_prop state ''rows'')) of
                       Inl e \<Rightarrow> Inl e
                     | Inr validRows \<Rightarrow> if \<not> validRows then Inr False else Inr True)))"

section \<open>Loading\<close>

text \<open>
  The browser storage as \<open>getInitialState\<close> sees it: the text stored under the key
  \<open>tableState\<close> (if any), whether reading and writing succeed (either may throw, and both
  throws are caught). \<open>None\<close> for the storage is the server side, where \<open>window\<close> is
  undefined. \<open>JSON.parse\<close> (\<open>None\<close> when it throws) and \<open>JSON.stringify\<close> are platform
  functions and are parameters.
\<close>

record Storage =
  item :: "string option"
  readable :: bool
  writable :: bool

definition setItem :: "string \<Rightarrow> Storage \<Rightarrow> Storage" where
  "setItem v st = (if writable st then st\<lparr>item := Some v\<rparr> else st)"

definition saved_valid :: "(string \<Rightarrow> json option) \<Rightarrow> Storage \<Rightarrow> json option" where
  \<comment> \<open>the first \<open>try\<close> block: the migrated state when it is returned from there\<close>
  "saved_valid parse st =
     (if \<not> readable st then None
      else (case item st of
              None \<Rightarrow> None
            | Some savedState \<Rightarrow>
                if savedState = [] then None
                else (case parse savedState of
                        None \<Rightarrow> None
                      | Some parsedState \<Rightarrow>
                          (let migratedState = migrateState parsedState
                           in case validateState migratedState of
                                Inr True \<Rightarrow> Some migratedState
                              | Inr False \<Rightarrow> None
                              | Inl e \<Rightarrow> None))))"

definition getInitialState ::
  "(string \<Rightarrow> json option) \<Rightarrow> (json \<Rightarrow> string) \<Rightarrow> Storage option \<Rightarrow> json \<times> Storage option" where
  "getInitialState parse stringify window =
     (case window of
        None \<Rightarrow> (initialState, None)
      | Some st \<Rightarrow>
          (case saved_valid parse st of
             Some migratedState \<Rightarrow> (migratedState, Some st)
           | None \<Rightarrow> (initialState, Some (setItem (stringify initialState) st))))"

section \<open>The table and its mutations\<close>

record Column =
  col_id :: string
  name :: string

record Row =
  row_id :: string
  cells :: "string \<rightharpoonup> string"

text \<open>
  \<open>TableState\<close>. The element types are parameters because one operation (\<open>handleDragEnd\<close>,
  through \<open>arrayMove\<close>) can leave the JavaScript value \<open>undefined\<close> in an array: its result
  has elements of type \<open>'a option\<close>, \<open>None\<close> being \<open>undefined\<close>.
\<close>

record ('c, 'r) Table =
  version :: int
  columns :: "'c list"
  rows :: "'r list"

type_synonym TableState = "(Column, Row) Table"

type_synonym LooseTableState = "(Column option, Row option) Table"

definition loose :: "TableState \<Rightarrow> LooseTableState" where
  \<comment> \<open>the same state, seen at the type whose arrays may hold \<open>undefined\<close>\<close>
  "loose s = \<lparr>version = version s, columns = map Some (columns s), rows = map Some (rows s)\<rparr>"

text \<open>
  \<open>String.prototype.trim\<close>. A \<open>char\<close> is a code unit below 256; the white space and line
  terminators of JavaScript in that range are TAB, LF, VT, FF, CR, SP and NBSP.
\<close>

definition isWhiteSpace :: "char \<Rightarrow> bool" where
  "isWhiteSpace c = (of_char c \<in> {9, 10, 11, 12, 13, 32, 160 :: nat})"

definition trim :: "string \<Rightarrow> string" where
  "trim s = rev (dropWhile isWhiteSpace (rev (dropWhile isWhiteSpace s)))"

text \<open>
  The state of the component: the table (\<open>null\<close> before the first load), the text of the
  column-name input and the warning shown under it.
\<close>

record TableContent =
  tableState :: "TableState option"
  newColumnName :: string
  warning :: string

text \<open>
  \<open>addColumn\<close>. The value of \<open>crypto.randomUUID()\<close> is the argument \<open>uuid\<close>.
\<close>

definition addColumn :: "string \<Rightarrow> TableContent \<Rightarrow> TableContent" where
  "addColumn uuid c =
     (if trim (newColumnName c) = [] then c\<lparr>warning := ''Please provide a column name.''\<rparr>
      else c\<lparr>warning := [],
             tableState :=
               (case tableState c of
                  None \<Rightarrow> None
                | Some prev \<Rightarrow>
                    Some (prev\<lparr>columns := columns prev @
                            [\<lparr>col_id = uuid, name = trim (newColumnName c)\<rparr>]\<rparr>)),
             newColumnName := []\<rparr>)"

definition deleteColumn :: "string \<Rightarrow> TableState option \<Rightarrow> TableState option" where
  "deleteColumn columnId prev =
     (case prev of
        None \<Rightarrow> None
      | Some p \<Rightarrow>
          Some (p\<lparr>columns := filter (\<lambda>col. col_id col \<noteq> columnId) (columns p),
                  rows := map (\<lambda>row. row\<lparr>cells := (cells row)(columnId := None)\<rparr>) (rows p)\<rparr>))"

definition addRow :: "string \<Rightarrow> TableState option \<Rightarrow> TableState option" where
  "addRow uuid prev =
     (case prev of
        None \<Rightarrow> None
      | Some p \<Rightarrow> Some (p\<lparr>rows := rows p @ [\<lparr>row_id = uuid, cells = Map.empty\<rparr>]\<rparr>))"

definition deleteRow :: "string \<Rightarrow> TableState option \<Rightarrow> TableState option" where
  "deleteRow rowId prev =
     (case prev of
        None \<Rightarrow> None
      | Some p \<Rightarrow> Some (p\<lparr>rows := filter (\<lambda>row. row_id row \<noteq> rowId) (rows p)\<rparr>))"

definition updateCell ::
  "string \<Rightarrow> string \<Rightarrow> string \<Rightarrow> TableState option \<Rightarrow> TableState option" where
  "updateCell rowId columnId val prev =
     (case prev of
        None \<Rightarrow> None
      | Some p \<Rightarrow>
          Some (p\<lparr>rows := map (\<lambda>row. if row_id row = rowId
                                     then row\<lparr>cells := (cells row)(columnId \<mapsto> val)\<rparr>
                                     else row) (rows p)\<rparr>))"

subsection \<open>Reordering\<close>

fun findIndex :: "('a \<Rightarrow> bool) \<Rightarrow> 'a list \<Rightarrow> int" where
  "findIndex P [] = - 1"
| "findIndex P (x # xs) =
     (if P x then 0
      else (let i = findIndex P xs in if i < 0 then - 1 else i + 1))"

definition splice_start :: "nat \<Rightarrow> int \<Rightarrow> nat" where
  \<comment> \<open>the start position of \<open>Array.prototype.splice\<close>: a negative start counts from the
      end, and the result is clamped to \<open>0 .. len\<close>\<close>
  "splice_start len start =
     (if start < 0 then nat (max (int len + start) 0) else min (nat start) len)"

text \<open>
  Modelled from the spec: \<open>arrayMove\<close> is imported from the package \<open>@dnd-kit/sortable\<close>;
  its source is not part of the repository. The spec describes what \<open>reorder\<close> gets from it:
  the element at \<open>from\<close> is taken out and put back at position \<open>to\<close>, the elements in
  between shifting by one (a single-element list move, not a swap). The package does this
  on a copy with \<open>newArray.splice(to < 0 ? newArray.length + to : to, 0,
  newArray.splice(from, 1)[0])\<close>, and that is what is written here, including what
  \<open>splice\<close> does with the index \<open>-1\<close> that \<open>findIndex\<close> returns for an absent id: the
  insert position is computed first, on the full length; \<open>splice(from, 1)\<close> takes out the
  last element when \<open>from = -1\<close> and nothing from an empty array, in which case \<open>[0]\<close> of
  the removed elements is \<open>undefined\<close> and is what gets inserted.
\<close>

definition arrayMove :: "'a list \<Rightarrow> int \<Rightarrow> int \<Rightarrow> 'a option list" where
  "arrayMove array from to =
     (let target = (if to < 0 then int (length array) + to else to);
          s = splice_start (length array) from;
          removed = take 1 (drop s array);
          newArray = take s array @ drop (s + 1) array;
          moved = (case removed of [] \<Rightarrow> None | x # _ \<Rightarrow> Some x);
          t = splice_start (length newArray) target
      in map Some (take t newArray) @ [moved] @ map Some (drop t newArray))"

text \<open>
  \<open>handleDragEnd\<close>: \<open>active\<close> is \<open>event.active.id\<close>, \<open>over\<close> is \<open>event.over\<close>'s id (\<open>None\<close>
  when the drag ended over nothing). The handler is not told whether a column or a row was
  dragged: it takes the columns when \<open>active\<close> is the id of a column, and the rows
  otherwise. When it returns early the state stays as it was.
\<close>

definition handleDragEnd ::
  "string \<Rightarrow> string option \<Rightarrow> TableState option \<Rightarrow> LooseTableState option" where
  "handleDragEnd active over prev =
     (case over of
        None \<Rightarrow> map_option loose prev
      | Some over_id \<Rightarrow>
          if active = over_id then map_option loose prev
          else (case prev of
                  None \<Rightarrow> None
                | Some p \<Rightarrow>
                    (let isColumn = list_ex (\<lambda>col. col_id col = active) (columns p)
                     in if isColumn then
                          (let oldIndex = findIndex (\<lambda>col. col_id col = active) (columns p);
                               newIndex = findIndex (\<lambda>col. col_id col = over_id) (columns p)
                           in Some ((loose p)\<lparr>columns :=
                                       arrayMove (columns p) oldIndex newIndex\<rparr>))
                        else
                          (let oldIndex = findIndex (\<lambda>row. row_id row = active) (rows p);
                               newIndex = findIndex (\<lambda>row. row_id row = over_id) (rows p)
                           in Some ((loose p)\<lparr>rows :=
                                       arrayMove (rows p) oldIndex newIndex\<rparr>)))))"

section \<open>Properties stated of the model\<close>

text \<open>
  The invariant of the data model: every key of every row's \<open>cells\<close> is the id of a
  column of the state. On a state whose arrays may hold \<open>undefined\<close> it speaks of the
  rows and columns that are there.
\<close>

definition cells_ok :: "TableState \<Rightarrow> bool" where
  "cells_ok s = (\<forall>row \<in> set (rows s). dom (cells row) \<subseteq> col_id ` set (columns s))"

definition loose_cells_ok :: "LooseTableState \<Rightarrow> bool" where
  "loose_cells_ok t =
     (\<forall>row. Some row \<in> set (rows t) \<longrightarrow>
        (\<forall>k \<in> dom (cells row). \<exists>col. Some col \<in> set (columns t) \<and> col_id col = k))"

text \<open>
  The spec's single-element list move, in its own words: \<open>ys\<close> is \<open>xs\<close> with the element
  at index \<open>i\<close> moved to index \<open>j\<close>; the elements between the two positions shift by one
  towards the place that was left, all others stay where they were. (A swap would put
  \<open>xs ! j\<close> at index \<open>i\<close> and leave the elements in between alone.)
\<close>

definition single_move :: "'a list \<Rightarrow> nat \<Rightarrow> nat \<Rightarrow> 'a option list \<Rightarrow> bool" where
  "single_move xs i j ys =
     (length ys = length xs
      \<and> ys ! j = Some (xs ! i)
      \<and> (\<forall>k < length xs. k \<noteq> j \<longrightarrow>
            ys ! k = Some (xs ! (if i \<le> k \<and> k < j then k + 1
                                 else if j < k \<and> k \<le> i then k - 1
                                 else k))))"

text \<open>
  Two stored texts used as concrete inputs: \<open>{"version":1}\<close>, which parses but has no
  \<open>columns\<close>, and \<open>{"version":1,"columns":[],"rows":[]}\<close>, the serialised initial state.
\<close>

definition blob_version_only :: string where
  "blob_version_only = CHR ''{'' # CHR 0x22 # ''version'' @ CHR 0x22 # '':1}''"

definition blob_initial :: string where
  "blob_initial =
     CHR ''{'' # CHR 0x22 # ''version'' @ CHR 0x22 # '':1,'' @ CHR 0x22 # ''columns''
       @ CHR 0x22 # '':[],'' @ CHR 0x22 # ''rows'' @ CHR 0x22 # '':[]}''"

text \<open>
  \<open>JSON.parse\<close> and \<open>JSON.stringify\<close> as far as the two texts go: what the first returns
  on them (it is taken to throw on any other text), and what the second returns on the
  initial state.
\<close>

definition sample_parse :: "string \<Rightarrow> json option" where
  "sample_parse =
     [blob_version_only \<mapsto> JObj [(''version'', JNum 1)], blob_initial \<mapsto> initialState]"

definition sample_stringify :: "json \<Rightarrow> string" where
  "sample_stringify j = (if j = initialState then blob_initial else [])"

text \<open>Scenario C of the spec: three columns, no rows.\<close>

definition scenario_C :: TableState where
  "scenario_C =
     \<lparr>version = 1,
      columns = [\<lparr>col_id = ''A'', name = ''a''\<rparr>, \<lparr>col_id = ''B'', name = ''b''\<rparr>,
                 \<lparr>col_id = ''C'', name = ''c''\<rparr>],
      rows = []\<rparr>"

text \<open>
  A table in which the ids \<open>x\<close> and \<open>y\<close> each name a column and a row.
\<close>

definition shared_id_state :: TableState where
  "shared_id_state =
     \<lparr>version = 1,
      columns = [\<lparr>col_id = ''x'', name = ''X''\<rparr>, \<lparr>col_id = ''y'', name = ''Y''\<rparr>],
      rows = [\<lparr>row_id = ''y'', cells = Map.empty\<rparr>, \<lparr>row_id = ''q'', cells = Map.empty\<rparr>,
              \<lparr>row_id = ''x'', cells = Map.empty\<rparr>]\<rparr>"

section \<open>Auxiliary facts\<close>

lemma filter_absent_id: "x \<notin> f ` set xs \<Longrightarrow> filter (\<lambda>y. f y \<noteq> x) xs = xs"
  by (induction xs) auto

lemma list_ex_id: "list_ex (\<lambda>y. f y = x) xs \<longleftrightarrow> x \<in> f ` set xs"
  by (auto simp: list_ex_iff)

lemma findIndex_present:
  "list_ex P xs \<Longrightarrow>
   \<exists>i < length xs. findIndex P xs = int i \<and> P (xs ! i) \<and> (\<forall>k < i. \<not> P (xs ! k))"
proof (induction xs)
  case Nil
  then show ?case by simp
next
  case (Cons x xs)
  show ?case
  proof (cases "P x")
    case True
    then show ?thesis by (intro exI [of _ 0]) simp
  next
    case False
    with Cons.prems have "list_ex P xs" by simp
    from Cons.IH [OF this] obtain i where i: "i < length xs" "findIndex P xs = int i"
      "P (xs ! i)" "\<forall>k < i. \<not> P (xs ! k)" by blast
    have "\<forall>k < Suc i. \<not> P ((x # xs) ! k)"
      using False i(4) by (auto simp: nth_Cons split: nat.splits)
    with False i show ?thesis
      by (intro exI [of _ "Suc i"]) (simp add: Let_def)
  qed
qed

lemma findIndex_absent: "\<not> list_ex P xs \<Longrightarrow> findIndex P xs = - 1"
  by (induction xs) (auto simp: Let_def)

lemma findIndex_range: "- 1 \<le> findIndex P xs \<and> findIndex P xs < int (length xs)"
  by (induction xs) (auto simp: Let_def)

subsection \<open>What \<open>arrayMove\<close> returns\<close>

lemma arrayMove_in_range_eq:
  assumes "i < length xs" and "j < length xs"
  shows "arrayMove xs (int i) (int j) =
           map Some (take j (take i xs @ drop (Suc i) xs)) @ [Some (xs ! i)]
             @ map Some (drop j (take i xs @ drop (Suc i) xs))"
proof -
  have rem: "take 1 (drop i xs) = [xs ! i]"
    using assms(1) by (metis Cons_nth_drop_Suc One_nat_def take0 take_Suc_Cons)
  have len: "length (take i xs @ drop (Suc i) xs) = length xs - 1"
    using assms(1) by simp
  have "splice_start (length xs - 1) (int j) = j"
    using assms(2) by (simp add: splice_start_def)
  with assms rem len show ?thesis
    by (simp add: arrayMove_def splice_start_def Let_def)
qed

lemma arrayMove_single_move:
  assumes "i < length xs" and "j < length xs"
  shows "single_move xs i j (arrayMove xs (int i) (int j))"
proof -
  define new where "new = take i xs @ drop (Suc i) xs"
  have len: "length new = length xs - 1"
    using assms(1) by (simp add: new_def)
  have new_nth: "new ! m = (if m < i then xs ! m else xs ! Suc m)" if "m < length xs - 1" for m
    using that assms(1) by (auto simp: new_def nth_append min_def)
  define ys where "ys = map Some (take j new) @ [Some (xs ! i)] @ map Some (drop j new)"
  have ys: "arrayMove xs (int i) (int j) = ys"
    using arrayMove_in_range_eq [OF assms] by (simp add: ys_def new_def)
  have jn: "j \<le> length new"
    using assms(2) len by simp
  have l: "length ys = length xs"
    using assms len jn by (simp add: ys_def)
  have at_j: "ys ! j = Some (xs ! i)"
    using jn by (simp add: ys_def nth_append)
  have below: "ys ! k = Some (new ! k)" if "k < j" for k
    using that jn by (simp add: ys_def nth_append)
  have above: "ys ! k = Some (new ! (k - 1))" if "j < k" "k < length xs" for k
  proof -
    from that obtain d where d: "k = j + Suc d"
      using less_imp_Suc_add by (metis add_Suc_right)
    with that len have "j + d < length new" by simp
    then have "ys ! (j + Suc d) = Some (new ! (j + d))"
      using jn by (simp add: ys_def nth_append)
    with d show ?thesis by simp
  qed
  have others: "ys ! k = Some (xs ! (if i \<le> k \<and> k < j then k + 1
                                 else if j < k \<and> k \<le> i then k - 1
                                 else k))" if "k < length xs" "k \<noteq> j" for k
  proof (cases "k < j")
    case True
    with assms(2) have "k < length xs - 1" by simp
    with True show ?thesis
      by (simp add: below new_nth)
  next
    case False
    with that have kj: "j < k" by simp
    then have "k - 1 < length xs - 1" using that by simp
    with kj that show ?thesis
      by (auto simp: above new_nth)
  qed
  from l at_j others show ?thesis
    unfolding ys single_move_def by blast
qed

lemma set_arrayMove_in_range:
  assumes "0 \<le> from" and "from < int (length xs)"
  shows "set (arrayMove xs from to) = Some ` set xs"
proof -
  define i where "i = nat from"
  have i: "i < length xs" "splice_start (length xs) from = i"
    using assms by (simp_all add: i_def splice_start_def)
  define new where "new = take i xs @ drop (Suc i) xs"
  define t where "t = splice_start (length new) (if to < 0 then int (length xs) + to else to)"
  have rem: "take 1 (drop i xs) = [xs ! i]"
    using i(1) by (metis Cons_nth_drop_Suc One_nat_def take0 take_Suc_Cons)
  have "arrayMove xs from to = map Some (take t new) @ [Some (xs ! i)] @ map Some (drop t new)"
    using i(2) rem by (simp add: arrayMove_def Let_def new_def t_def)
  then have "set (arrayMove xs from to) = Some ` (set (take t new) \<union> set (drop t new)) \<union> {Some (xs ! i)}"
    by (simp add: image_Un Un_commute insert_commute)
  also have "set (take t new) \<union> set (drop t new) = set new"
    by (metis append_take_drop_id set_append)
  also have "Some ` set new \<union> {Some (xs ! i)} = Some ` (set new \<union> {xs ! i})"
    by blast
  also have "set new \<union> {xs ! i} = set xs"
  proof -
    have "xs = take i xs @ xs ! i # drop (Suc i) xs"
      using i(1) by (rule id_take_nth_drop)
    then have "set xs = set (take i xs) \<union> {xs ! i} \<union> set (drop (Suc i) xs)"
      by (metis list.simps(15) set_append Un_assoc insert_is_Un)
    then show ?thesis
      by (auto simp: new_def)
  qed
  finally show ?thesis .
qed

lemma set_arrayMove_subset:
  "set (arrayMove xs from to) \<subseteq> insert None (Some ` set xs)"
proof -
  define s where "s = splice_start (length xs) from"
  define new where "new = take s xs @ drop (s + 1) xs"
  define moved where "moved = (case take 1 (drop s xs) of [] \<Rightarrow> None | x # _ \<Rightarrow> Some x)"
  define t where "t = splice_start (length new) (if to < 0 then int (length xs) + to else to)"
  have eq: "arrayMove xs from to = map Some (take t new) @ [moved] @ map Some (drop t new)"
    by (simp add: arrayMove_def Let_def new_def t_def s_def moved_def)
  have new: "set new \<subseteq> set xs"
    by (auto simp: new_def dest: in_set_takeD in_set_dropD)
  have td: "set (take t new) \<subseteq> set new" "set (drop t new) \<subseteq> set new"
    by (auto dest: in_set_takeD in_set_dropD)
  have moved: "moved \<in> insert None (Some ` set xs)"
  proof (cases "take 1 (drop s xs)")
    case Nil
    then show ?thesis by (simp add: moved_def)
  next
    case (Cons x rest)
    then have "x \<in> set (take 1 (drop s xs))" by simp
    then have "x \<in> set xs"
      by (blast dest: in_set_takeD in_set_dropD)
    with Cons show ?thesis by (simp add: moved_def)
  qed
  show ?thesis
    unfolding eq using new td moved by auto
qed

lemma arrayMove_last_to_front: "arrayMove [a, b, c] 2 0 = [Some c, Some a, Some b]"
  by (simp add: arrayMove_def splice_start_def)

lemma arrayMove_first_to_second: "arrayMove [a, b] 0 1 = [Some b, Some a]"
  by (simp add: arrayMove_def splice_start_def)

lemma arrayMove_absent_onto_first: "arrayMove [a, b] (- 1) 0 = [Some b, Some a]"
  by (simp add: arrayMove_def splice_start_def)

text \<open>
  With both indices \<open>-1\<close> on an empty array nothing is taken out, and \<open>undefined\<close> is put in.
\<close>

lemma arrayMove_empty: "arrayMove [] (- 1) (- 1) = [None]"
  by (simp add: arrayMove_def splice_start_def)

subsection \<open>The branches of \<open>handleDragEnd\<close>\<close>

lemma handleDragEnd_columns:
  assumes "activeId \<noteq> overId" and "activeId \<in> col_id ` set (columns s)"
  shows "handleDragEnd activeId (Some overId) (Some s) =
           Some ((loose s)\<lparr>columns := arrayMove (columns s)
                   (findIndex (\<lambda>col. col_id col = activeId) (columns s))
                   (findIndex (\<lambda>col. col_id col = overId) (columns s))\<rparr>)"
  using assms by (simp add: handleDragEnd_def list_ex_id Let_def)

lemma handleDragEnd_rows:
  assumes "activeId \<noteq> overId" and "activeId \<notin> col_id ` set (columns s)"
  shows "handleDragEnd activeId (Some overId) (Some s) =
           Some ((loose s)\<lparr>rows := arrayMove (rows s)
                   (findIndex (\<lambda>row. row_id row = activeId) (rows s))
                   (findIndex (\<lambda>row. row_id row = overId) (rows s))\<rparr>)"
  using assms by (simp add: handleDragEnd_def list_ex_id Let_def)

lemma handleDragEnd_early_return:
  "over = None \<or> over = Some activeId \<Longrightarrow>
   handleDragEnd activeId over (Some s) = Some (loose s)"
  by (auto simp: handleDragEnd_def)

text \<open>
  A drag of an id that is in neither sequence, on a table without rows, leaves
  \<open>undefined\<close> as the only row.
\<close>

lemma handleDragEnd_undefined_row:
  "handleDragEnd ''x'' (Some ''y'') (Some \<lparr>version = 1, columns = [], rows = []\<rparr>)
     = Some \<lparr>version = 1, columns = [], rows = [None]\<rparr>"
  by (simp add: handleDragEnd_def loose_def arrayMove_empty)

subsection \<open>What \<open>validateState\<close> accepts\<close>

lemma every_e_True: "every_e p xs = Inr True \<Longrightarrow> \<forall>x \<in> set xs. p x = Inr True"
  by (induction xs) (auto split: sum.splits if_splits)

lemma typeof_TString: "typeof v = TString \<longleftrightarrow> (\<exists>s. v = Some (JStr s))"
  by (cases v rule: typeof.cases) auto

lemma isArray_elements: "isArray v \<Longrightarrow> v = Some (JArr (elements v))"
  by (cases v rule: isArray.cases) auto

lemma valid_row_True:
  assumes "valid_row row = Inr True"
  shows "\<exists>i c es. get_prop row ''id'' = Some (JStr i) \<and> get_prop row ''cells'' = Some c
           \<and> c \<noteq> JNull \<and> Object_entries c = Inr es \<and> (\<forall>e \<in> set es. \<exists>v. snd e = JStr v)"
proof -
  from assms obtain i where i: "get_prop row ''id'' = Some (JStr i)"
    by (auto simp: valid_row_def typeof_TString split: if_splits)
  from assms obtain c where c: "get_prop row ''cells'' = Some c"
    by (auto simp: valid_row_def split: if_splits option.splits)
  with assms obtain es where es: "Object_entries c = Inr es" "list_all valid_entry es"
    by (auto simp: valid_row_def split: if_splits sum.splits)
  from es(1) have "c \<noteq> JNull" by auto
  moreover from es(2) have "\<forall>e \<in> set es. \<exists>v. snd e = JStr v"
    by (auto simp: list_all_iff valid_entry_def typeof_TString)
  ultimately show ?thesis
    using i c es(1) by blast
qed

text \<open>
  Whenever \<open>validateState\<close> returns \<open>true\<close>, \<open>columns\<close> and \<open>rows\<close> are arrays, every
  column has a string \<open>id\<close> and a string \<open>name\<close>, and every row has a string \<open>id\<close> and a
  \<open>cells\<close> that is not \<open>null\<close> and whose entries all have string values.
\<close>

lemma validateState_True:
  assumes "validateState state = Inr True"
  shows "\<exists>cols rws. get_prop state ''columns'' = Some (JArr cols)
           \<and> get_prop state ''rows'' = Some (JArr rws)
           \<and> (\<forall>col \<in> set cols. \<exists>i n. get_prop col ''id'' = Some (JStr i)
                                     \<and> get_prop col ''name'' = Some (JStr n))
           \<and> (\<forall>row \<in> set rws. \<exists>i c es. get_prop row ''id'' = Some (JStr i)
                  \<and> get_prop row ''cells'' = Some c \<and> c \<noteq> JNull
                  \<and> Object_entries c = Inr es \<and> (\<forall>e \<in> set es. \<exists>v. snd e = JStr v))"
proof -
  define cols where "cols = elements (get_prop state ''columns'')"
  define rws where "rws = elements (get_prop state ''rows'')"
  from assms have arrays: "isArray (get_prop state ''columns'')" "isArray (get_prop state ''rows'')"
    by (auto simp: validateState_def split: if_splits)
  then have shape: "get_prop state ''columns'' = Some (JArr cols)"
      "get_prop state ''rows'' = Some (JArr rws)"
    by (simp_all add: cols_def rws_def isArray_elements [symmetric])
  from assms have "list_all valid_column cols"
    by (auto simp: validateState_def Let_def cols_def split: if_splits)
  then have c: "\<forall>col \<in> set cols. \<exists>i n. get_prop col ''id'' = Some (JStr i)
                                     \<and> get_prop col ''name'' = Some (JStr n)"
    by (auto simp: list_all_iff valid_column_def typeof_TString)
  from assms have "every_e valid_row rws = Inr True"
    by (auto simp: validateState_def Let_def rws_def split: if_splits sum.splits)
  then have "\<forall>row \<in> set rws. valid_row row = Inr True"
    by (rule every_e_True)
  then have r: "\<forall>row \<in> set rws. \<exists>i c es. get_prop row ''id'' = Some (JStr i)
                  \<and> get_prop row ''cells'' = Some c \<and> c \<noteq> JNull
                  \<and> Object_entries c = Inr es \<and> (\<forall>e \<in> set es. \<exists>v. snd e = JStr v)"
    using valid_row_True by blast
  from shape c r show ?thesis by blast
qed

subsection \<open>The invariant on cell keys\<close>

lemma updateCell_keys:
  assumes "row' \<in> set (map (\<lambda>row. if row_id row = rowId
                             then row\<lparr>cells := (cells row)(columnId \<mapsto> val)\<rparr> else row) rws)"
  shows "\<exists>row \<in> set rws. dom (cells row') \<subseteq> insert columnId (dom (cells row))
         \<and> (rowId \<notin> row_id ` set rws \<longrightarrow> row' = row)"
proof -
  from assms obtain row where row: "row \<in> set rws"
      "row' = (if row_id row = rowId
               then row\<lparr>cells := (cells row)(columnId \<mapsto> val)\<rparr> else row)"
    by auto
  then have "dom (cells row') \<subseteq> insert columnId (dom (cells row))"
    by (auto split: if_splits)
  moreover from row have "rowId \<notin> row_id ` set rws \<longrightarrow> row' = row"
    by auto
  ultimately show ?thesis
    using row(1) by blast
qed

lemma loose_cells_okI:
  assumes inv: "cells_ok s"
    and rs: "set rs \<subseteq> insert None (Some ` set (rows s))"
    and cs: "Some ` set (columns s) \<subseteq> set cs"
  shows "loose_cells_ok \<lparr>version = v, columns = cs, rows = rs\<rparr>"
  unfolding loose_cells_ok_def
proof (intro allI impI ballI)
  fix row k
  assume "Some row \<in> set (rows \<lparr>version = v, columns = cs, rows = rs\<rparr>)"
    and k: "k \<in> dom (cells row)"
  with rs have "row \<in> set (rows s)" by auto
  with inv k have "k \<in> col_id ` set (columns s)"
    by (auto simp: cells_ok_def)
  then obtain col where "col \<in> set (columns s)" "col_id col = k" by auto
  with cs show "\<exists>col. Some col \<in> set (columns \<lparr>version = v, columns = cs, rows = rs\<rparr>)
                  \<and> col_id col = k"
    by auto
qed

section \<open>Unknown ids\<close>

text \<open>
  C1, as amended. \<open>deleteRow\<close> with an id that no row has returns the state it was
  given. \<open>deleteColumn\<close> with an id that no column has does so when, in addition, no
  row's \<open>cells\<close> holds that id as a key (the key is removed from every row whether or not
  the column exists). \<open>handleDragEnd\<close> returns the state it was given when the drag ended
  over nothing or over the dragged element itself: these two tests are its only guards.
\<close>

theorem no_op_on_unknown_id_amended:
  "(rowId \<notin> row_id ` set (rows s) \<longrightarrow> deleteRow rowId (Some s) = Some s)
   \<and> (columnId \<notin> col_id ` set (columns s)
        \<and> (\<forall>row \<in> set (rows s). columnId \<notin> dom (cells row))
      \<longrightarrow> deleteColumn columnId (Some s) = Some s)
   \<and> handleDragEnd activeId None (Some s) = Some (loose s)
   \<and> handleDragEnd activeId (Some activeId) (Some s) = Some (loose s)"
proof -
  have del_row: "deleteRow rowId (Some s) = Some s" if "rowId \<notin> row_id ` set (rows s)"
    using that by (simp add: deleteRow_def filter_absent_id)
  have del_col: "deleteColumn columnId (Some s) = Some s"
    if absent: "columnId \<notin> col_id ` set (columns s)"
      and clean: "\<forall>row \<in> set (rows s). columnId \<notin> dom (cells row)"
  proof -
    have "(cells row)(columnId := None) = cells row" if "row \<in> set (rows s)" for row
      using clean that by (auto simp: domIff)
    then have "map (\<lambda>row. row\<lparr>cells := (cells row)(columnId := None)\<rparr>) (rows s) = rows s"
      by (simp add: map_idI)
    with absent show ?thesis
      by (simp add: deleteColumn_def filter_absent_id)
  qed
  have "handleDragEnd activeId None (Some s) = Some (loose s)"
    by (simp add: handleDragEnd_def)
  moreover have "handleDragEnd activeId (Some activeId) (Some s) = Some (loose s)"
    by (simp add: handleDragEnd_def)
  ultimately show ?thesis
    using del_row del_col by blast
qed

text \<open>
  The claim as stated fails twice. The id \<open>c\<close> is not a column, yet deleting it changes
  the row that holds \<open>c\<close> as a key. The id \<open>zz\<close> is neither a column nor a row, so
  \<open>findIndex\<close> gives \<open>-1\<close> for it, and \<open>arrayMove\<close> then moves the last row onto the
  position of \<open>r1\<close>.
\<close>

theorem no_op_on_unknown_id_counterexample:
  "''c'' \<notin> col_id ` set (columns
      \<lparr>version = 1, columns = [], rows = [\<lparr>row_id = ''r'', cells = [''c'' \<mapsto> ''v'']\<rparr>]\<rparr>)
   \<and> deleteColumn ''c''
        (Some \<lparr>version = 1, columns = [], rows = [\<lparr>row_id = ''r'', cells = [''c'' \<mapsto> ''v'']\<rparr>]\<rparr>)
      = Some \<lparr>version = 1, columns = [], rows = [\<lparr>row_id = ''r'', cells = Map.empty\<rparr>]\<rparr>
   \<and> Some \<lparr>version = 1, columns = [], rows = [\<lparr>row_id = ''r'', cells = Map.empty\<rparr>]\<rparr>
      \<noteq> Some \<lparr>version = 1, columns = ([]::Column list),
               rows = [\<lparr>row_id = ''r'', cells = [''c'' \<mapsto> ''v'']\<rparr>]\<rparr>
   \<and> ''zz'' \<notin> row_id ` set (rows
      \<lparr>version = 1, columns = ([]::Column list),
        rows = [\<lparr>row_id = ''r1'', cells = Map.empty\<rparr>, \<lparr>row_id = ''r2'', cells = Map.empty\<rparr>]\<rparr>)
   \<and> handleDragEnd ''zz'' (Some ''r1'')
        (Some \<lparr>version = 1, columns = [],
           rows = [\<lparr>row_id = ''r1'', cells = Map.empty\<rparr>, \<lparr>row_id = ''r2'', cells = Map.empty\<rparr>]\<rparr>)
      = Some (loose \<lparr>version = 1, columns = [],
           rows = [\<lparr>row_id = ''r2'', cells = Map.empty\<rparr>, \<lparr>row_id = ''r1'', cells = Map.empty\<rparr>]\<rparr>)"
proof (intro conjI)
  show "Some \<lparr>version = 1, columns = [], rows = [\<lparr>row_id = ''r'', cells = Map.empty\<rparr>]\<rparr>
      \<noteq> Some \<lparr>version = 1, columns = ([]::Column list),
               rows = [\<lparr>row_id = ''r'', cells = [''c'' \<mapsto> ''v'']\<rparr>]\<rparr>"
    by (auto dest: fun_cong [where x = "''c''"])
qed (simp_all add: deleteColumn_def handleDragEnd_def loose_def arrayMove_absent_onto_first)

theorem no_op_on_unknown_id_amended_witness:
  "''r9'' \<notin> row_id ` set (rows \<lparr>version = 1, columns = [\<lparr>col_id = ''a'', name = ''A''\<rparr>],
        rows = [\<lparr>row_id = ''r1'', cells = [''a'' \<mapsto> ''1'']\<rparr>]\<rparr>)
   \<and> deleteRow ''r9'' (Some \<lparr>version = 1, columns = [\<lparr>col_id = ''a'', name = ''A''\<rparr>],
        rows = [\<lparr>row_id = ''r1'', cells = [''a'' \<mapsto> ''1'']\<rparr>]\<rparr>)
      = Some \<lparr>version = 1, columns = [\<lparr>col_id = ''a'', name = ''A''\<rparr>],
        rows = [\<lparr>row_id = ''r1'', cells = [''a'' \<mapsto> ''1'']\<rparr>]\<rparr>
   \<and> ''b'' \<notin> col_id ` set (columns \<lparr>version = 1, columns = [\<lparr>col_id = ''a'', name = ''A''\<rparr>],
        rows = [\<lparr>row_id = ''r1'', cells = [''a'' \<mapsto> ''1'']\<rparr>]\<rparr>)
   \<and> rows \<lparr>version = 1, columns = [\<lparr>col_id = ''a'', name = ''A''\<rparr>],
        rows = [\<lparr>row_id = ''r1'', cells = [''a'' \<mapsto> ''1'']\<rparr>]\<rparr>
      = [\<lparr>row_id = ''r1'', cells = [''a'' \<mapsto> ''1'']\<rparr>]
   \<and> ''b'' \<notin> dom (cells \<lparr>row_id = ''r1'', cells = [''a'' \<mapsto> ''1'']\<rparr>)
   \<and> deleteColumn ''b'' (Some \<lparr>version = 1, columns = [\<lparr>col_id = ''a'', name = ''A''\<rparr>],
        rows = [\<lparr>row_id = ''r1'', cells = [''a'' \<mapsto> ''1'']\<rparr>]\<rparr>)
      = Some \<lparr>version = 1, columns = [\<lparr>col_id = ''a'', name = ''A''\<rparr>],
        rows = [\<lparr>row_id = ''r1'', cells = [''a'' \<mapsto> ''1'']\<rparr>]\<rparr>"
  using no_op_on_unknown_id_amended
    [of "''r9''" "\<lparr>version = 1, columns = [\<lparr>col_id = ''a'', name = ''A''\<rparr>],
        rows = [\<lparr>row_id = ''r1'', cells = [''a'' \<mapsto> ''1'']\<rparr>]\<rparr>" "''b''"]
  by simp

section \<open>Loading a blob that fails validation\<close>

text \<open>
  C2, as amended. When the stored text parses but the migrated value does not pass
  validation (\<open>validateState\<close> returns \<open>false\<close> or throws), \<open>getInitialState\<close> returns
  the empty initial state and writes the serialised initial state over the stored text;
  the stored text stays only if that write fails.
\<close>

theorem load_invalid_blob_amended:
  assumes "item st = Some blob" and "readable st" and "parse blob = Some parsed"
    and "validateState (migrateState parsed) \<noteq> Inr True"
  shows "getInitialState parse stringify (Some st) =
           (initialState,
            Some (if writable st then st\<lparr>item := Some (stringify initialState)\<rparr> else st))"
proof -
  have "saved_valid parse st = None"
  proof (cases "validateState (migrateState parsed)")
    case (Inl e)
    with assms show ?thesis by (simp add: saved_valid_def)
  next
    case (Inr b)
    with assms have "\<not> b" by simp
    with Inr assms show ?thesis by (simp add: saved_valid_def)
  qed
  then show ?thesis
    by (simp add: getInitialState_def setItem_def)
qed

text \<open>
  The stored text \<open>{"version":1}\<close> parses, is passed through by \<open>migrateState\<close>, fails
  validation for want of \<open>columns\<close>, and is replaced in storage.
\<close>

theorem load_invalid_blob_counterexample:
  "sample_parse blob_version_only = Some (JObj [(''version'', JNum 1)])
   \<and> validateState (migrateState (JObj [(''version'', JNum 1)])) = Inr False
   \<and> getInitialState sample_parse sample_stringify
        (Some \<lparr>item = Some blob_version_only, readable = True, writable = True\<rparr>)
      = (initialState, Some \<lparr>item = Some blob_initial, readable = True, writable = True\<rparr>)
   \<and> Some blob_initial \<noteq> Some blob_version_only"
  by (simp add: getInitialState_def saved_valid_def setItem_def migrateState_def
      validateState_def sample_parse_def sample_stringify_def blob_version_only_def
      blob_initial_def)

theorem load_invalid_blob_amended_witness:
  "item \<lparr>item = Some blob_version_only, readable = True, writable = False\<rparr>
      = Some blob_version_only
   \<and> readable \<lparr>item = Some blob_version_only, readable = True, writable = False\<rparr>
   \<and> sample_parse blob_version_only = Some (JObj [(''version'', JNum 1)])
   \<and> validateState (migrateState (JObj [(''version'', JNum 1)])) \<noteq> Inr True
   \<and> getInitialState sample_parse sample_stringify
        (Some \<lparr>item = Some blob_version_only, readable = True, writable = False\<rparr>)
      = (initialState, Some \<lparr>item = Some blob_version_only, readable = True, writable = False\<rparr>)"
proof -
  have parsed: "sample_parse blob_version_only = Some (JObj [(''version'', JNum 1)])"
    by (simp add: sample_parse_def blob_version_only_def blob_initial_def)
  have invalid: "validateState (migrateState (JObj [(''version'', JNum 1)])) \<noteq> Inr True"
    by (simp add: migrateState_def validateState_def)
  from load_invalid_blob_amended
    [of "\<lparr>item = Some blob_version_only, readable = True, writable = False\<rparr>"
        blob_version_only sample_parse "JObj [(''version'', JNum 1)]" sample_stringify]
    parsed invalid
  show ?thesis by simp
qed

section \<open>Validation\<close>

text \<open>
  C3. \<open>validateState\<close> is meant to return \<open>false\<close> on any ill-formed state and never
  to throw. A row whose \<open>cells\<close> is \<open>null\<close> passes the test
  \<open>typeof row.cells === "object"\<close>, and \<open>Object.entries(null)\<close> then throws a TypeError:
  on this input \<open>validateState\<close> does not return.
\<close>

theorem validateState_throws_on_null_cells:
  "validateState
     (JObj [(''version'', JNum 1), (''columns'', JArr []),
            (''rows'', JArr [JObj [(''id'', JStr ''r''), (''cells'', JNull)]])])
   = Inl TypeError"
  by (simp add: validateState_def valid_row_def)

text \<open>On that input the outcome is neither \<open>false\<close> nor \<open>true\<close>.\<close>

theorem validateState_throws_on_null_cells_witness:
  "validateState
     (JObj [(''version'', JNum 1), (''columns'', JArr []),
            (''rows'', JArr [JObj [(''id'', JStr ''r''), (''cells'', JNull)]])])
   \<noteq> Inr False
   \<and> validateState
     (JObj [(''version'', JNum 1), (''columns'', JArr []),
            (''rows'', JArr [JObj [(''id'', JStr ''r''), (''cells'', JNull)]])])
   \<noteq> Inr True"
  using validateState_throws_on_null_cells by simp

section \<open>Migration\<close>

lemma migrateState_truthy_version:
  "truthy (Some state) \<Longrightarrow> typeof (Some state) = TObject \<Longrightarrow>
   truthy (get_prop state ''version'') \<Longrightarrow> migrateState state = state"
  by (simp add: migrateState_def)

lemma migrateState_initialState: "migrateState initialState = initialState"
  by (simp add: migrateState_def initialState_def CURRENT_VERSION_def)

text \<open>
  C9. Migration is idempotent: for every input \<open>x\<close>, migrating the migrated value gives the
  migrated value again.
\<close>

theorem migrateState_idempotent: "migrateState (migrateState x) = migrateState x"
proof (cases "\<not> truthy (Some x) \<or> typeof (Some x) \<noteq> TObject")
  case True
  then have "migrateState x = initialState"
    by (auto simp: migrateState_def)
  then show ?thesis
    by (simp add: migrateState_initialState)
next
  case obj: False
  show ?thesis
  proof (cases "truthy (get_prop x ''version'')")
    case True
    with obj have "migrateState x = x"
      by (simp add: migrateState_truthy_version)
    then show ?thesis by simp
  next
    case False
    define y where "y = migrateState x"
    from obj False have "y = JObj [(''version'', JNum CURRENT_VERSION),
              (''columns'', array_or_empty (get_prop x ''columns'')),
              (''rows'', array_or_empty (get_prop x ''rows''))]"
      by (simp add: y_def migrateState_def)
    then have "truthy (Some y)" "typeof (Some y) = TObject" "truthy (get_prop y ''version'')"
      by (simp_all add: CURRENT_VERSION_def)
    then have "migrateState y = y"
      by (rule migrateState_truthy_version)
    then show ?thesis by (simp add: y_def)
  qed
qed

text \<open>
  Scenario D of the spec: a stored value without \<open>version\<close> is stamped once, and migrating
  the result again changes nothing.
\<close>

theorem migrateState_idempotent_witness:
  "migrateState (migrateState
      (JObj [(''columns'', JArr [JObj [(''id'', JStr ''x''), (''name'', JStr ''N'')]]),
             (''rows'', JArr [])]))
   = JObj [(''version'', JNum 1),
           (''columns'', JArr [JObj [(''id'', JStr ''x''), (''name'', JStr ''N'')]]),
           (''rows'', JArr [])]"
  using migrateState_idempotent
    [of "JObj [(''columns'', JArr [JObj [(''id'', JStr ''x''), (''name'', JStr ''N'')]]),
               (''rows'', JArr [])]"]
  by (simp add: migrateState_def CURRENT_VERSION_def)

text \<open>
  C4, as amended. When \<open>raw\<close> is not an object, or its \<open>version\<close> is missing or
  falsy (\<open>0\<close>, \<open>""\<close>, \<open>null\<close>, \<open>false\<close>), \<open>migrateState\<close> returns the state with the
  current version, \<open>raw.columns\<close> if that is an array and \<open>[]\<close> otherwise, and the same
  for \<open>rows\<close>. When \<open>raw\<close> is an object with a truthy \<open>version\<close>, it is returned
  unchanged.
\<close>

theorem migrateState_amended:
  "(\<not> (truthy (Some raw) \<and> typeof (Some raw) = TObject) \<or> \<not> truthy (get_prop raw ''version'')
      \<longrightarrow> migrateState raw =
            JObj [(''version'', JNum CURRENT_VERSION),
                  (''columns'', (case get_prop raw ''columns'' of
                                   Some (JArr xs) \<Rightarrow> JArr xs | _ \<Rightarrow> JArr [])),
                  (''rows'', (case get_prop raw ''rows'' of
                                Some (JArr xs) \<Rightarrow> JArr xs | _ \<Rightarrow> JArr []))])
   \<and> (truthy (Some raw) \<and> typeof (Some raw) = TObject \<and> truthy (get_prop raw ''version'')
      \<longrightarrow> migrateState raw = raw)"
proof -
  have arr: "array_or_empty v = (case v of Some (JArr xs) \<Rightarrow> JArr xs | _ \<Rightarrow> JArr [])" for v
    by (cases v rule: array_or_empty.cases) simp_all
  have prim: "get_prop raw k = None" if "\<not> (truthy (Some raw) \<and> typeof (Some raw) = TObject)" for k
    using that by (cases raw) simp_all
  show ?thesis
    by (auto simp: migrateState_def initialState_def arr prim)
qed

text \<open>
  The claim as stated fails on \<open>{version: 0}\<close>: the field is there, but \<open>!state.version\<close>
  holds of it and the value is rebuilt as a legacy state.
\<close>

theorem migrateState_counterexample:
  "get_prop (JObj [(''version'', JNum 0)]) ''version'' = Some (JNum 0)
   \<and> migrateState (JObj [(''version'', JNum 0)])
      = JObj [(''version'', JNum 1), (''columns'', JArr []), (''rows'', JArr [])]
   \<and> migrateState (JObj [(''version'', JNum 0)]) \<noteq> JObj [(''version'', JNum 0)]"
  by (simp add: migrateState_def CURRENT_VERSION_def)

theorem migrateState_amended_witness:
  "migrateState (JObj [(''columns'', JArr [JObj [(''id'', JStr ''x''), (''name'', JStr ''N'')]]),
                       (''rows'', JArr [])])
     = JObj [(''version'', JNum 1),
             (''columns'', JArr [JObj [(''id'', JStr ''x''), (''name'', JStr ''N'')]]),
             (''rows'', JArr [])]
   \<and> migrateState (JObj [(''version'', JNum 1), (''columns'', JArr []), (''rows'', JArr [])])
     = JObj [(''version'', JNum 1), (''columns'', JArr []), (''rows'', JArr [])]"
  using migrateState_amended
    [of "JObj [(''columns'', JArr [JObj [(''id'', JStr ''x''), (''name'', JStr ''N'')]]),
               (''rows'', JArr [])]"]
    migrateState_amended
    [of "JObj [(''version'', JNum 1), (''columns'', JArr []), (''rows'', JArr [])]"]
  by (simp add: CURRENT_VERSION_def)

section \<open>Deleting a column\<close>

text \<open>
  C5. For a column id \<open>c\<close> of the state, \<open>deleteColumn\<close> returns a state in which no
  row's \<open>cells\<close> has the key \<open>c\<close> and no column has the id \<open>c\<close>, with as many rows
  as before and the same row ids in the same order.
\<close>

theorem deleteColumn_cascade:
  assumes "c \<in> col_id ` set (columns s)"
  shows "\<exists>s'. deleteColumn c (Some s) = Some s'
           \<and> (\<forall>row \<in> set (rows s'). c \<notin> dom (cells row))
           \<and> (\<forall>col \<in> set (columns s'). col_id col \<noteq> c)
           \<and> length (rows s') = length (rows s)
           \<and> map row_id (rows s') = map row_id (rows s)"
proof -
  define s' where "s' = s\<lparr>columns := filter (\<lambda>col. col_id col \<noteq> c) (columns s),
                         rows := map (\<lambda>row. row\<lparr>cells := (cells row)(c := None)\<rparr>) (rows s)\<rparr>"
  have run: "deleteColumn c (Some s) = Some s'"
    by (simp add: deleteColumn_def s'_def)
  have keys: "\<forall>row \<in> set (rows s'). c \<notin> dom (cells row)"
    by (auto simp: s'_def)
  have cols: "\<forall>col \<in> set (columns s'). col_id col \<noteq> c"
    by (simp add: s'_def)
  have ids: "map row_id (rows s') = map row_id (rows s)"
    by (simp add: s'_def comp_def)
  have len: "length (rows s') = length (rows s)"
    by (simp add: s'_def)
  from run keys cols len ids show ?thesis by blast
qed

text \<open>
  Scenario B of the spec: columns \<open>[a, b]\<close>, one row with \<open>{a: "1", b: "2"}\<close>.
\<close>

theorem deleteColumn_cascade_witness:
  "''a'' \<in> col_id ` set (columns
      \<lparr>version = 1, columns = [\<lparr>col_id = ''a'', name = ''A''\<rparr>, \<lparr>col_id = ''b'', name = ''B''\<rparr>],
        rows = [\<lparr>row_id = ''r'', cells = [''a'' \<mapsto> ''1'', ''b'' \<mapsto> ''2'']\<rparr>]\<rparr>)
   \<and> deleteColumn ''a''
       (Some \<lparr>version = 1,
              columns = [\<lparr>col_id = ''a'', name = ''A''\<rparr>, \<lparr>col_id = ''b'', name = ''B''\<rparr>],
              rows = [\<lparr>row_id = ''r'', cells = [''a'' \<mapsto> ''1'', ''b'' \<mapsto> ''2'']\<rparr>]\<rparr>)
     = Some \<lparr>version = 1, columns = [\<lparr>col_id = ''b'', name = ''B''\<rparr>],
             rows = [\<lparr>row_id = ''r'', cells = [''b'' \<mapsto> ''2'']\<rparr>]\<rparr>
   \<and> (\<exists>s'. deleteColumn ''a''
       (Some \<lparr>version = 1,
              columns = [\<lparr>col_id = ''a'', name = ''A''\<rparr>, \<lparr>col_id = ''b'', name = ''B''\<rparr>],
              rows = [\<lparr>row_id = ''r'', cells = [''a'' \<mapsto> ''1'', ''b'' \<mapsto> ''2'']\<rparr>]\<rparr>) = Some s'
         \<and> (\<forall>row \<in> set (rows s'). ''a'' \<notin> dom (cells row))
         \<and> (\<forall>col \<in> set (columns s'). col_id col \<noteq> ''a'')
         \<and> length (rows s') = 1
         \<and> map row_id (rows s') = [''r''])"
proof -
  have present: "''a'' \<in> col_id ` set (columns
      \<lparr>version = 1, columns = [\<lparr>col_id = ''a'', name = ''A''\<rparr>, \<lparr>col_id = ''b'', name = ''B''\<rparr>],
        rows = [\<lparr>row_id = ''r'', cells = [''a'' \<mapsto> ''1'', ''b'' \<mapsto> ''2'']\<rparr>]\<rparr>)"
    by simp
  have upd: "[''a'' \<mapsto> ''1'', ''b'' \<mapsto> ''2''](''a'' := None) = [''b'' \<mapsto> ''2'']"
    by (auto simp: fun_eq_iff)
  have run: "deleteColumn ''a''
       (Some \<lparr>version = 1,
              columns = [\<lparr>col_id = ''a'', name = ''A''\<rparr>, \<lparr>col_id = ''b'', name = ''B''\<rparr>],
              rows = [\<lparr>row_id = ''r'', cells = [''a'' \<mapsto> ''1'', ''b'' \<mapsto> ''2'']\<rparr>]\<rparr>)
     = Some \<lparr>version = 1, columns = [\<lparr>col_id = ''b'', name = ''B''\<rparr>],
             rows = [\<lparr>row_id = ''r'', cells = [''b'' \<mapsto> ''2'']\<rparr>]\<rparr>"
    by (simp add: deleteColumn_def upd)
  from deleteColumn_cascade [OF present] present run show ?thesis
    by simp
qed

section \<open>Reordering\<close>

text \<open>
  C6, as amended. \<open>handleDragEnd\<close> is not told which sequence the drag was in: it works
  on the columns when the dragged id is a column id, and on the rows otherwise. For two
  different ids that are both in the sequence so chosen, the element with the dragged id
  is moved to the index of the element with the other id, the elements in between
  shifting by one (\<open>single_move\<close>), and nothing else changes; when the two ids are equal
  the state is returned as it was. The indices are those of the first element with the
  id, as \<open>findIndex\<close> finds them.
\<close>

theorem reorder_single_move:
  "(activeId \<noteq> overId \<and> activeId \<in> col_id ` set (columns s)
      \<and> overId \<in> col_id ` set (columns s) \<longrightarrow>
      (\<exists>t i j. handleDragEnd activeId (Some overId) (Some s) = Some t
         \<and> i < length (columns s) \<and> col_id (columns s ! i) = activeId
         \<and> (\<forall>k < i. col_id (columns s ! k) \<noteq> activeId)
         \<and> j < length (columns s) \<and> col_id (columns s ! j) = overId
         \<and> (\<forall>k < j. col_id (columns s ! k) \<noteq> overId)
         \<and> single_move (columns s) i j (columns t)
         \<and> rows t = map Some (rows s) \<and> version t = version s))
   \<and> (activeId \<noteq> overId \<and> activeId \<notin> col_id ` set (columns s)
      \<and> activeId \<in> row_id ` set (rows s) \<and> overId \<in> row_id ` set (rows s) \<longrightarrow>
      (\<exists>t i j. handleDragEnd activeId (Some overId) (Some s) = Some t
         \<and> i < length (rows s) \<and> row_id (rows s ! i) = activeId
         \<and> (\<forall>k < i. row_id (rows s ! k) \<noteq> activeId)
         \<and> j < length (rows s) \<and> row_id (rows s ! j) = overId
         \<and> (\<forall>k < j. row_id (rows s ! k) \<noteq> overId)
         \<and> single_move (rows s) i j (rows t)
         \<and> columns t = map Some (columns s) \<and> version t = version s))
   \<and> handleDragEnd activeId (Some activeId) (Some s) = Some (loose s)"
proof (intro conjI impI)
  assume h: "activeId \<noteq> overId \<and> activeId \<in> col_id ` set (columns s)
      \<and> overId \<in> col_id ` set (columns s)"
  from h obtain i where i: "i < length (columns s)"
      "findIndex (\<lambda>col. col_id col = activeId) (columns s) = int i"
      "col_id (columns s ! i) = activeId" "\<forall>k < i. col_id (columns s ! k) \<noteq> activeId"
    using findIndex_present [of "\<lambda>col. col_id col = activeId" "columns s"]
    by (auto simp: list_ex_id)
  from h obtain j where j: "j < length (columns s)"
      "findIndex (\<lambda>col. col_id col = overId) (columns s) = int j"
      "col_id (columns s ! j) = overId" "\<forall>k < j. col_id (columns s ! k) \<noteq> overId"
    using findIndex_present [of "\<lambda>col. col_id col = overId" "columns s"]
    by (auto simp: list_ex_id)
  define t where "t = (loose s)\<lparr>columns := arrayMove (columns s) (int i) (int j)\<rparr>"
  have run: "handleDragEnd activeId (Some overId) (Some s) = Some t"
    using h i(2) j(2) by (simp add: handleDragEnd_columns t_def)
  have mv: "single_move (columns s) i j (columns t)"
    using arrayMove_single_move [OF i(1) j(1)] by (simp add: t_def)
  have frame: "rows t = map Some (rows s)" "version t = version s"
    by (simp_all add: t_def loose_def)
  from run i j mv frame
  show "\<exists>t i j. handleDragEnd activeId (Some overId) (Some s) = Some t
         \<and> i < length (columns s) \<and> col_id (columns s ! i) = activeId
         \<and> (\<forall>k < i. col_id (columns s ! k) \<noteq> activeId)
         \<and> j < length (columns s) \<and> col_id (columns s ! j) = overId
         \<and> (\<forall>k < j. col_id (columns s ! k) \<noteq> overId)
         \<and> single_move (columns s) i j (columns t)
         \<and> rows t = map Some (rows s) \<and> version t = version s"
    by blast
next
  assume h: "activeId \<noteq> overId \<and> activeId \<notin> col_id ` set (columns s)
      \<and> activeId \<in> row_id ` set (rows s) \<and> overId \<in> row_id ` set (rows s)"
  from h obtain i where i: "i < length (rows s)"
      "findIndex (\<lambda>row. row_id row = activeId) (rows s) = int i"
      "row_id (rows s ! i) = activeId" "\<forall>k < i. row_id (rows s ! k) \<noteq> activeId"
    using findIndex_present [of "\<lambda>row. row_id row = activeId" "rows s"]
    by (auto simp: list_ex_id)
  from h obtain j where j: "j < length (rows s)"
      "findIndex (\<lambda>row. row_id row = overId) (rows s) = int j"
      "row_id (rows s ! j) = overId" "\<forall>k < j. row_id (rows s ! k) \<noteq> overId"
    using findIndex_present [of "\<lambda>row. row_id row = overId" "rows s"]
    by (auto simp: list_ex_id)
  define t where "t = (loose s)\<lparr>rows := arrayMove (rows s) (int i) (int j)\<rparr>"
  have run: "handleDragEnd activeId (Some overId) (Some s) = Some t"
    using h i(2) j(2) by (simp add: handleDragEnd_rows t_def)
  have mv: "single_move (rows s) i j (rows t)"
    using arrayMove_single_move [OF i(1) j(1)] by (simp add: t_def)
  have frame: "columns t = map Some (columns s)" "version t = version s"
    by (simp_all add: t_def loose_def)
  from run i j mv frame
  show "\<exists>t i j. handleDragEnd activeId (Some overId) (Some s) = Some t
         \<and> i < length (rows s) \<and> row_id (rows s ! i) = activeId
         \<and> (\<forall>k < i. row_id (rows s ! k) \<noteq> activeId)
         \<and> j < length (rows s) \<and> row_id (rows s ! j) = overId
         \<and> (\<forall>k < j. row_id (rows s ! k) \<noteq> overId)
         \<and> single_move (rows s) i j (rows t)
         \<and> columns t = map Some (columns s) \<and> version t = version s"
    by blast
next
  show "handleDragEnd activeId (Some activeId) (Some s) = Some (loose s)"
    by (simp add: handleDragEnd_early_return)
qed

text \<open>
  The claim as stated fails for a row whose id is also the id of a column. In
  \<open>shared_id_state\<close> the rows are \<open>[y, q, x]\<close> and both ids are row ids, yet dragging
  \<open>x\<close> over \<open>y\<close> leaves the rows as they were (row \<open>x\<close> is not moved from index 2 to
  index 0) and reorders the columns \<open>[x, y]\<close> instead.
\<close>

theorem reorder_single_move_counterexample:
  "''x'' \<noteq> ''y''
   \<and> ''x'' \<in> row_id ` set (rows shared_id_state)
   \<and> ''y'' \<in> row_id ` set (rows shared_id_state)
   \<and> row_id (rows shared_id_state ! 2) = ''x''
   \<and> row_id (rows shared_id_state ! 0) = ''y''
   \<and> handleDragEnd ''x'' (Some ''y'') (Some shared_id_state)
      = Some \<lparr>version = 1,
              columns = [Some \<lparr>col_id = ''y'', name = ''Y''\<rparr>, Some \<lparr>col_id = ''x'', name = ''X''\<rparr>],
              rows = map Some (rows shared_id_state)\<rparr>
   \<and> \<not> single_move (rows shared_id_state) 2 0 (map Some (rows shared_id_state))"
proof -
  have run: "handleDragEnd ''x'' (Some ''y'') (Some shared_id_state)
      = Some \<lparr>version = 1,
              columns = [Some \<lparr>col_id = ''y'', name = ''Y''\<rparr>, Some \<lparr>col_id = ''x'', name = ''X''\<rparr>],
              rows = map Some (rows shared_id_state)\<rparr>"
    by (simp add: handleDragEnd_def shared_id_state_def loose_def arrayMove_first_to_second)
  have stay: "\<not> single_move (rows shared_id_state) 2 0 (map Some (rows shared_id_state))"
    by (simp add: single_move_def shared_id_state_def)
  from run stay show ?thesis
    by (simp add: shared_id_state_def)
qed

text \<open>
  Scenario C of the spec: columns \<open>[A, B, C]\<close>, dragging \<open>C\<close> over \<open>A\<close> gives
  \<open>[C, A, B]\<close>.
\<close>

theorem reorder_single_move_witness:
  "''C'' \<noteq> ''A'' \<and> ''C'' \<in> col_id ` set (columns scenario_C)
   \<and> ''A'' \<in> col_id ` set (columns scenario_C)
   \<and> (\<exists>t i j. handleDragEnd ''C'' (Some ''A'') (Some scenario_C) = Some t
         \<and> single_move (columns scenario_C) i j (columns t))
   \<and> handleDragEnd ''C'' (Some ''A'') (Some scenario_C)
      = Some \<lparr>version = 1,
              columns = [Some \<lparr>col_id = ''C'', name = ''c''\<rparr>, Some \<lparr>col_id = ''A'', name = ''a''\<rparr>,
                         Some \<lparr>col_id = ''B'', name = ''b''\<rparr>],
              rows = []\<rparr>"
proof -
  have hyp: "''C'' \<noteq> ''A'' \<and> ''C'' \<in> col_id ` set (columns scenario_C)
      \<and> ''A'' \<in> col_id ` set (columns scenario_C)"
    by (simp add: scenario_C_def)
  have ex: "\<exists>t i j. handleDragEnd ''C'' (Some ''A'') (Some scenario_C) = Some t
         \<and> single_move (columns scenario_C) i j (columns t)"
    using reorder_single_move [of "''C''" "''A''" scenario_C] hyp by blast
  have run: "handleDragEnd ''C'' (Some ''A'') (Some scenario_C)
      = Some \<lparr>version = 1,
              columns = [Some \<lparr>col_id = ''C'', name = ''c''\<rparr>, Some \<lparr>col_id = ''A'', name = ''a''\<rparr>,
                         Some \<lparr>col_id = ''B'', name = ''b''\<rparr>],
              rows = []\<rparr>"
    by (simp add: handleDragEnd_def scenario_C_def loose_def arrayMove_last_to_front)
  from hyp ex run show ?thesis by blast
qed

section \<open>Cell keys and column ids\<close>

text \<open>
  C7, as amended. From a state in which every key of every row's \<open>cells\<close> is a column
  id, \<open>addColumn\<close>, \<open>deleteColumn\<close>, \<open>addRow\<close>, \<open>deleteRow\<close> and \<open>handleDragEnd\<close>
  return such a state, and so does \<open>updateCell\<close> when its \<open>columnId\<close> is a column id of
  the state or its \<open>rowId\<close> matches no row. (\<open>updateCell\<close> does not look at the columns.)
\<close>

theorem mutations_preserve_cells_ok_amended:
  assumes inv: "cells_ok s"
  shows "(tableState c = Some s \<longrightarrow>
            (\<exists>s'. tableState (addColumn uuid c) = Some s' \<and> cells_ok s'))
       \<and> (\<exists>s'. deleteColumn columnId (Some s) = Some s' \<and> cells_ok s')
       \<and> (\<exists>s'. addRow uuid (Some s) = Some s' \<and> cells_ok s')
       \<and> (\<exists>s'. deleteRow rowId (Some s) = Some s' \<and> cells_ok s')
       \<and> (columnId \<in> col_id ` set (columns s) \<or> rowId \<notin> row_id ` set (rows s) \<longrightarrow>
            (\<exists>s'. updateCell rowId columnId val (Some s) = Some s' \<and> cells_ok s'))
       \<and> (\<exists>t. handleDragEnd activeId over (Some s) = Some t \<and> loose_cells_ok t)"
proof (intro conjI impI)
  assume "tableState c = Some s"
  with inv show "\<exists>s'. tableState (addColumn uuid c) = Some s' \<and> cells_ok s'"
    by (auto simp: addColumn_def cells_ok_def)
next
  have "cells_ok (s\<lparr>columns := filter (\<lambda>col. col_id col \<noteq> columnId) (columns s),
                    rows := map (\<lambda>row. row\<lparr>cells := (cells row)(columnId := None)\<rparr>) (rows s)\<rparr>)"
    using inv by (auto simp: cells_ok_def)
  then show "\<exists>s'. deleteColumn columnId (Some s) = Some s' \<and> cells_ok s'"
    by (simp add: deleteColumn_def)
next
  from inv show "\<exists>s'. addRow uuid (Some s) = Some s' \<and> cells_ok s'"
    by (auto simp: addRow_def cells_ok_def)
next
  from inv show "\<exists>s'. deleteRow rowId (Some s) = Some s' \<and> cells_ok s'"
    by (auto simp: deleteRow_def cells_ok_def)
next
  assume ok: "columnId \<in> col_id ` set (columns s) \<or> rowId \<notin> row_id ` set (rows s)"
  define rows' where "rows' = map (\<lambda>row. if row_id row = rowId
                             then row\<lparr>cells := (cells row)(columnId \<mapsto> val)\<rparr> else row) (rows s)"
  have "dom (cells row') \<subseteq> col_id ` set (columns s)" if "row' \<in> set rows'" for row'
  proof -
    from that obtain row where row: "row \<in> set (rows s)"
        "dom (cells row') \<subseteq> insert columnId (dom (cells row))"
        "rowId \<notin> row_id ` set (rows s) \<longrightarrow> row' = row"
      unfolding rows'_def using updateCell_keys by blast
    from inv row(1) have "dom (cells row) \<subseteq> col_id ` set (columns s)"
      by (simp add: cells_ok_def)
    with ok row show ?thesis by auto
  qed
  then have "cells_ok (s\<lparr>rows := rows'\<rparr>)"
    by (simp add: cells_ok_def)
  then show "\<exists>s'. updateCell rowId columnId val (Some s) = Some s' \<and> cells_ok s'"
    by (simp add: updateCell_def rows'_def)
next
  have base: "loose_cells_ok (loose s)"
    unfolding loose_def by (rule loose_cells_okI [OF inv]) auto
  show "\<exists>t. handleDragEnd activeId over (Some s) = Some t \<and> loose_cells_ok t"
  proof (cases "over = None \<or> over = Some activeId")
    case True
    with base show ?thesis by (simp add: handleDragEnd_early_return)
  next
    case False
    then obtain overId where over: "over = Some overId" "activeId \<noteq> overId"
      by auto
    show ?thesis
    proof (cases "activeId \<in> col_id ` set (columns s)")
      case True
      then obtain i where "i < length (columns s)"
          "findIndex (\<lambda>col. col_id col = activeId) (columns s) = int i"
        using findIndex_present [of "\<lambda>col. col_id col = activeId" "columns s"]
        by (auto simp: list_ex_id)
      then have "set (arrayMove (columns s)
                   (findIndex (\<lambda>col. col_id col = activeId) (columns s))
                   (findIndex (\<lambda>col. col_id col = overId) (columns s))) = Some ` set (columns s)"
        by (simp add: set_arrayMove_in_range)
      then have "loose_cells_ok ((loose s)\<lparr>columns := arrayMove (columns s)
                   (findIndex (\<lambda>col. col_id col = activeId) (columns s))
                   (findIndex (\<lambda>col. col_id col = overId) (columns s))\<rparr>)"
        unfolding loose_def by (simp, intro loose_cells_okI [OF inv]) auto
      with True over show ?thesis
        by (simp add: handleDragEnd_columns)
    next
      case False
      have "set (arrayMove (rows s)
                   (findIndex (\<lambda>row. row_id row = activeId) (rows s))
                   (findIndex (\<lambda>row. row_id row = overId) (rows s)))
              \<subseteq> insert None (Some ` set (rows s))"
        by (rule set_arrayMove_subset)
      then have "loose_cells_ok ((loose s)\<lparr>rows := arrayMove (rows s)
                   (findIndex (\<lambda>row. row_id row = activeId) (rows s))
                   (findIndex (\<lambda>row. row_id row = overId) (rows s))\<rparr>)"
        unfolding loose_def by (simp, intro loose_cells_okI [OF inv]) auto
      with False over show ?thesis
        by (simp add: handleDragEnd_rows)
    qed
  qed
qed

text \<open>
  The claim as stated fails for \<open>updateCell\<close> with a column id that no column has: the
  key is stored all the same.
\<close>

theorem mutations_preserve_cells_ok_counterexample:
  "cells_ok \<lparr>version = 1, columns = [], rows = [\<lparr>row_id = ''r'', cells = Map.empty\<rparr>]\<rparr>
   \<and> updateCell ''r'' ''ghost'' ''v''
        (Some \<lparr>version = 1, columns = [], rows = [\<lparr>row_id = ''r'', cells = Map.empty\<rparr>]\<rparr>)
      = Some \<lparr>version = 1, columns = [], rows = [\<lparr>row_id = ''r'', cells = [''ghost'' \<mapsto> ''v'']\<rparr>]\<rparr>
   \<and> \<not> cells_ok \<lparr>version = 1, columns = [],
                   rows = [\<lparr>row_id = ''r'', cells = [''ghost'' \<mapsto> ''v'']\<rparr>]\<rparr>"
  by (simp add: cells_ok_def updateCell_def)

theorem mutations_preserve_cells_ok_amended_witness:
  "cells_ok \<lparr>version = 1, columns = [\<lparr>col_id = ''a'', name = ''A''\<rparr>],
             rows = [\<lparr>row_id = ''r'', cells = Map.empty\<rparr>]\<rparr>
   \<and> ''a'' \<in> col_id ` set (columns \<lparr>version = 1, columns = [\<lparr>col_id = ''a'', name = ''A''\<rparr>],
             rows = [\<lparr>row_id = ''r'', cells = Map.empty\<rparr>]\<rparr>)
   \<and> (\<exists>s'. updateCell ''r'' ''a'' ''1''
          (Some \<lparr>version = 1, columns = [\<lparr>col_id = ''a'', name = ''A''\<rparr>],
             rows = [\<lparr>row_id = ''r'', cells = Map.empty\<rparr>]\<rparr>) = Some s' \<and> cells_ok s')"
proof -
  have inv: "cells_ok \<lparr>version = 1, columns = [\<lparr>col_id = ''a'', name = ''A''\<rparr>],
             rows = [\<lparr>row_id = ''r'', cells = Map.empty\<rparr>]\<rparr>"
    by (simp add: cells_ok_def)
  have present: "''a'' \<in> col_id ` set (columns \<lparr>version = 1, columns = [\<lparr>col_id = ''a'', name = ''A''\<rparr>],
             rows = [\<lparr>row_id = ''r'', cells = Map.empty\<rparr>]\<rparr>)"
    by simp
  from mutations_preserve_cells_ok_amended [OF inv, where columnId = "''a''" and rowId = "''r''"
      and val = "''1''"] inv present
  show ?thesis by blast
qed

section \<open>Adding a column\<close>




section \<open>The version field\<close>

text \<open>
  C10. Every mutation returns a state with the version of the state it was given:
  \<open>addColumn\<close> with a name that is not blank, \<open>deleteColumn\<close>, \<open>addRow\<close>, \<open>deleteRow\<close>,
  \<open>updateCell\<close> and \<open>handleDragEnd\<close>.
\<close>

theorem mutations_preserve_version:
  "(trim (newColumnName c) \<noteq> [] \<and> tableState c = Some s
      \<longrightarrow> map_option version (tableState (addColumn uuid c)) = Some (version s))
   \<and> map_option version (deleteColumn columnId (Some s)) = Some (version s)
   \<and> map_option version (addRow uuid (Some s)) = Some (version s)
   \<and> map_option version (deleteRow rowId (Some s)) = Some (version s)
   \<and> map_option version (updateCell rowId columnId val (Some s)) = Some (version s)
   \<and> map_option version (handleDragEnd activeId over (Some s)) = Some (version s)"
proof -
  have drag: "map_option version (handleDragEnd activeId over (Some s)) = Some (version s)"
    by (cases over) (simp_all add: handleDragEnd_def loose_def Let_def)
  show ?thesis
    by (simp add: addColumn_def deleteColumn_def addRow_def deleteRow_def updateCell_def drag)
qed

theorem mutations_preserve_version_witness:
  "trim (newColumnName \<lparr>tableState = Some \<lparr>version = 1, columns = [], rows = []\<rparr>,
                        newColumnName = ''Name'', warning = []\<rparr>) \<noteq> []
   \<and> map_option version (tableState (addColumn ''id-1''
        \<lparr>tableState = Some \<lparr>version = 1, columns = [], rows = []\<rparr>,
          newColumnName = ''Name'', warning = []\<rparr>)) = Some 1"
  using mutations_preserve_version
    [where c = "\<lparr>tableState = Some \<lparr>version = 1, columns = [], rows = []\<rparr>,
          newColumnName = ''Name'', warning = []\<rparr>"
       and s = "\<lparr>version = 1, columns = [], rows = []\<rparr>" and uuid = "''id-1''"]
  by (simp add: trim_def isWhiteSpace_def)

end
